theory Spec2Isabelle
  imports Main "HOL-Library.AList"
begin

section \<open>JavaScript values\<close>

text \<open>
  The pages keep server data as plain JavaScript objects. An object is an association
  list in insertion order; a key that is missing reads as \<open>undefined\<close>. All numbers
  the pages handle are whole (slider values with whole steps, whole defaults).
\<close>

datatype jsval =
    JUndefined
  | JNull
  | JBool bool
  | JNum int
  | JStr string
  | JArr "jsval list"
  | JObj "(string \<times> jsval) list"

type_synonym jsobj = "(string \<times> jsval) list"

text \<open>
  Property read \<open>v.k\<close>, for the keys the pages read (never \<open>length\<close> or an
  index). A primitive has none of them. On \<open>undefined\<close> and \<open>null\<close> JavaScript
  throws; the pages read properties of objects and of values known to be truthy, and
  the model gives \<open>undefined\<close> there.
\<close>

fun get :: "jsval \<Rightarrow> string \<Rightarrow> jsval" where
  "get (JObj kvs) k = (case map_of kvs k of None \<Rightarrow> JUndefined | Some v \<Rightarrow> v)"
| "get _ k = JUndefined"

text \<open>Truthiness, as \<open>!v\<close>, \<open>v && ...\<close> and \<open>v || ...\<close> test it.\<close>

fun truthy :: "jsval \<Rightarrow> bool" where
  "truthy JUndefined = False"
| "truthy JNull = False"
| "truthy (JBool b) = b"
| "truthy (JNum n) = (n \<noteq> 0)"
| "truthy (JStr s) = (s \<noteq> [])"
| "truthy (JArr xs) = True"
| "truthy (JObj kvs) = True"

definition js_or :: "jsval \<Rightarrow> jsval \<Rightarrow> jsval" where
  "js_or a b = (if truthy a then a else b)"

text \<open>
  Object spread \<open>{...v}\<close>: the own enumerable properties of \<open>v\<close>. Strings and arrays
  spread to their indexed elements, the other primitives to nothing.
\<close>

fun index_key :: "nat \<Rightarrow> string" where
  "index_key n =
     (if n < 10 then [char_of (48 + n)]
      else index_key (n div 10) @ [char_of (48 + n mod 10)])"

fun spread :: "jsval \<Rightarrow> jsobj" where
  "spread (JObj kvs) = kvs"
| "spread (JArr xs) = zip (map index_key [0..<length xs]) xs"
| "spread (JStr s) = zip (map index_key [0..<length s]) (map (\<lambda>c. JStr [c]) s)"
| "spread _ = []"

text \<open>
  \<open>Object.keys(v)\<close>, and the keys of \<open>Object.entries(v)\<close>. (On \<open>undefined\<close>
  and \<open>null\<close> JavaScript throws and the page does not render; the model gives no
  keys, so no item is offered.)
\<close>

definition keys :: "jsval \<Rightarrow> string list" where
  "keys v = map fst (spread v)"

text \<open>\<open>{...v, k: x}\<close>: an existing key keeps its place, a new key goes last.\<close>

definition with_key :: "jsval \<Rightarrow> string \<Rightarrow> jsval \<Rightarrow> jsval" where
  "with_key v k x = JObj (AList.update k x (spread v))"

text \<open>Whether a value is an object.\<close>

definition is_obj :: "jsval \<Rightarrow> bool" where
  "is_obj v = (case v of JObj kvs \<Rightarrow> True | _ \<Rightarrow> False)"

section \<open>Dashboard page\<close>

text \<open>
  The user-visible texts of the pages are Russian literals; each is a constructor here,
  named by its meaning. A toast shows either such a literal or a value taken from the
  server's error reply.
\<close>

datatype message =
    Msg_cameras_load_failed
  | Msg_fill_required_fields
  | Msg_camera_added
  | Msg_camera_add_failed
  | Msg_camera_deleted
  | Msg_camera_delete_failed

datatype toast = Text message | Dynamic jsval

record new_camera =
  name :: string
  url :: string
  username :: string
  password :: string

definition empty_new_camera :: new_camera where
  "empty_new_camera = \<lparr>name = [], url = [], username = [], password = []\<rparr>"

record dashboard =
  cameras :: "jsval list"
  stats :: jsval
  loading :: bool
  showAddDialog :: bool
  editingCamera :: "jsval option"
  newCamera :: new_camera

definition dashboard_init :: dashboard where
  "dashboard_init =
     \<lparr>cameras = [], stats = JObj [], loading = True, showAddDialog = False,
      editingCamera = None, newCamera = empty_new_camera\<rparr>"

text \<open>
  The backend is reached through axios. A request either resolves or rejects; the only
  part of a rejection the page reads is \<open>error.response?.data?.detail\<close>. The backend is
  a parameter: its state \<open>'b\<close>, its answer to \<open>POST /cameras\<close> and to \<open>GET /cameras\<close>.
\<close>

datatype reply = Resolved | Rejected jsval

record 'b api =
  post_cameras :: "new_camera \<Rightarrow> 'b \<Rightarrow> reply \<times> 'b"
  get_cameras :: "'b \<Rightarrow> jsval list option"

datatype effect =
    ToastError toast
  | ToastSuccess toast
  | ConsoleError
  | Post_cameras new_camera
  | Get_cameras
  | Delete_cameras jsval

definition fetchCameras :: "'b api \<Rightarrow> dashboard \<times> 'b \<Rightarrow> (dashboard \<times> 'b) \<times> effect list" where
  "fetchCameras srv w =
     (case w of (st, b) \<Rightarrow>
        (case get_cameras srv b of
           Some data \<Rightarrow> ((st\<lparr>cameras := data, loading := False\<rparr>, b), [Get_cameras])
         | None \<Rightarrow>
             ((st\<lparr>loading := False\<rparr>, b),
              [Get_cameras, ConsoleError, ToastError (Text Msg_cameras_load_failed)])))"

definition handleAddCamera :: "'b api \<Rightarrow> dashboard \<times> 'b \<Rightarrow> (dashboard \<times> 'b) \<times> effect list" where
  "handleAddCamera srv w =
     (case w of (st, b) \<Rightarrow>
        if name (newCamera st) = [] \<or> url (newCamera st) = []
        then ((st, b), [ToastError (Text Msg_fill_required_fields)])
        else
          (case post_cameras srv (newCamera st) b of
             (Resolved, b') \<Rightarrow>
               (case fetchCameras srv
                       (st\<lparr>showAddDialog := False, newCamera := empty_new_camera\<rparr>, b') of
                  (w', es) \<Rightarrow>
                    (w', [Post_cameras (newCamera st), ToastSuccess (Text Msg_camera_added)] @ es))
           | (Rejected detail, b') \<Rightarrow>
               ((st, b'),
                [Post_cameras (newCamera st),
                 ToastError (if truthy detail then Dynamic detail
                             else Text Msg_camera_add_failed)])))"

text \<open>The header button that opens the add dialog: \<open>disabled={cameras.length >= 20}\<close>.\<close>

definition addCameraDisabled :: "dashboard \<Rightarrow> bool" where
  "addCameraDisabled st = (20 \<le> length (cameras st))"

definition clickAddCamera :: "dashboard \<Rightarrow> dashboard" where
  "clickAddCamera st = (if addCameraDisabled st then st else st\<lparr>showAddDialog := True\<rparr>)"

fun is_post :: "effect \<Rightarrow> bool" where
  "is_post (Post_cameras c) = True"
| "is_post _ = False"

fun is_success :: "effect \<Rightarrow> bool" where
  "is_success (ToastSuccess t) = True"
| "is_success _ = False"




section \<open>CameraView page\<close>

text \<open>The header of the live view shows a two-way status: active, or not active.\<close>

definition cameraViewCircleClass :: "jsval \<Rightarrow> string" where
  "cameraViewCircleClass camera =
     (if get camera ''status'' = JStr ''active''
      then ''w-3 h-3 text-[var(--success)] fill-[var(--success)]''
      else ''w-3 h-3 text-[var(--text-secondary)] fill-[var(--text-secondary)]'')"


section \<open>Dashboard sessions\<close>














section \<open>CameraSupervisor\<close>

text \<open>
  Modelled from the spec: the CameraSupervisor (section 4.6) lives in the backend, which
  is not among the sources; the pages only call it over HTTP. It owns the set of cameras,
  enforces an upper bound of 20 on them and rejects \<open>add\<close> beyond the bound with a
  capacity error, synchronously and with no partial state created.
\<close>

type_synonym supervisor = "jsval list"

datatype supervisor_error = CapacityError

text \<open>Modelled from the spec: the upper bound on concurrently running cameras.\<close>

definition max_cameras :: nat where
  "max_cameras = 20"

text \<open>
  Modelled from the spec: \<open>add(camera)\<close>. Beyond the bound it gives the capacity
  error and no new state; otherwise the supervisor's cameras with the new one.
\<close>

definition add :: "jsval \<Rightarrow> supervisor \<Rightarrow> supervisor_error + supervisor" where
  "add camera running =
     (if max_cameras \<le> length running then Inl CapacityError else Inr (running @ [camera]))"

text \<open>
  The supervisor behind the two requests of the Dashboard. The request-serving layer is
  outside the spec: how an error becomes the \<open>detail\<close> of the reply is the parameter
  \<open>detail\<close>.
\<close>

definition camera_of :: "new_camera \<Rightarrow> jsval" where
  "camera_of c =
     JObj [(''name'', JStr (name c)), (''url'', JStr (url c)),
           (''username'', JStr (username c)), (''password'', JStr (password c))]"

definition supervisor_api :: "(supervisor_error \<Rightarrow> jsval) \<Rightarrow> supervisor api" where
  "supervisor_api detail =
     \<lparr>post_cameras =
        (\<lambda>c running. case add (camera_of c) running of
                    Inl e \<Rightarrow> (Rejected (detail e), running)
                  | Inr running' \<Rightarrow> (Resolved, running')),
      get_cameras = (\<lambda>running. Some running)\<rparr>"

section \<open>CameraSettingsDialog\<close>

definition default_mog2 :: jsval where
  "default_mog2 =
     JObj [(''history'', JNum 500), (''var_threshold'', JNum 16),
           (''detect_shadows'', JBool True), (''learning_rate'', JNum (- 1)),
           (''n_mixtures'', JNum 5)]"

definition default_motion :: jsval where
  "default_motion =
     JObj [(''enabled'', JBool False), (''mog2'', default_mog2), (''min_area'', JNum 500),
           (''min_duration_seconds'', JNum 1), (''exclusion_zones'', JArr [])]"

definition default_recording :: jsval where
  "default_recording =
     JObj [(''continuous'', JBool False), (''on_motion'', JBool True),
           (''storage_path'', JStr ''/app/recordings''),
           (''max_file_duration_minutes'', JNum 60)]"

definition default_telegram :: jsval where
  "default_telegram =
     JObj [(''send_alerts'', JBool False), (''send_video_clips'', JBool False)]"

text \<open>The initial \<open>settings\<close> state, from the \<open>camera\<close> prop.\<close>

definition initial_settings :: "jsval \<Rightarrow> jsval" where
  "initial_settings camera =
     JObj [(''name'', get camera ''name''), (''url'', get camera ''url''),
           (''username'', js_or (get camera ''username'') (JStr [])),
           (''password'', js_or (get camera ''password'') (JStr [])),
           (''motion'', js_or (get camera ''motion'') default_motion),
           (''recording'', js_or (get camera ''recording'') default_recording),
           (''telegram'', js_or (get camera ''telegram'') default_telegram)]"

text \<open>A camera record as the add dialog creates it: no motion configuration yet.\<close>

definition camera_without_motion :: jsval where
  "camera_without_motion =
     JObj [(''id'', JStr ''c1''), (''name'', JStr ''Camera 1''),
           (''url'', JStr ''rtsp://192.168.1.10/stream''), (''username'', JStr []),
           (''password'', JStr []), (''status'', JStr ''inactive'')]"

text \<open>The four shapes of \<open>setSettings\<close> the controls use.\<close>


definition set_top :: "string \<Rightarrow> jsval \<Rightarrow> jsval \<Rightarrow> jsval" where
  "set_top k v s = with_key s k v"

definition set_in :: "string \<Rightarrow> string \<Rightarrow> jsval \<Rightarrow> jsval \<Rightarrow> jsval" where
  "set_in g k v s = with_key s g (with_key (get s g) k v)"

definition set_mog2 :: "string \<Rightarrow> jsval \<Rightarrow> jsval \<Rightarrow> jsval" where
  "set_mog2 k v s =
     with_key s ''motion''
       (with_key (get s ''motion'') ''mog2''
          (with_key (get (get s ''motion'') ''mog2'') k v))"

text \<open>
  The Slider component (a wrapper of a UI library, not among the sources) is taken by
  its contract: with props \<open>min\<close>, \<open>max\<close> and \<open>step\<close> it reports only values
  \<open>min + k * step\<close> within \<open>[min, max]\<close>.
\<close>

definition slider_emits :: "int \<Rightarrow> int \<Rightarrow> int \<Rightarrow> int \<Rightarrow> bool" where
  "slider_emits mn mx stp v = (mn \<le> v \<and> v \<le> mx \<and> (v - mn) mod stp = 0)"

datatype event =
    Input_name string
  | Input_url string
  | Input_username string
  | Input_password string
  | Switch_motion_enabled bool
  | Slider_history int
  | Slider_var_threshold int
  | Slider_n_mixtures int
  | Switch_detect_shadows bool
  | Slider_min_area int
  | Slider_min_duration int
  | Slider_pre_record int
  | Slider_post_record int
  | Switch_continuous bool
  | Switch_on_motion bool
  | Input_storage_path string
  | Slider_max_file_duration int
  | Switch_send_alerts bool
  | Switch_send_video_clips bool

fun handle :: "event \<Rightarrow> jsval \<Rightarrow> jsval" where
  "handle (Input_name v) s = set_top ''name'' (JStr v) s"
| "handle (Input_url v) s = set_top ''url'' (JStr v) s"
| "handle (Input_username v) s = set_top ''username'' (JStr v) s"
| "handle (Input_password v) s = set_top ''password'' (JStr v) s"
| "handle (Switch_motion_enabled b) s = set_in ''motion'' ''enabled'' (JBool b) s"
| "handle (Slider_history v) s = set_mog2 ''history'' (JNum v) s"
| "handle (Slider_var_threshold v) s = set_mog2 ''var_threshold'' (JNum v) s"
| "handle (Slider_n_mixtures v) s = set_mog2 ''n_mixtures'' (JNum v) s"
| "handle (Switch_detect_shadows b) s = set_mog2 ''detect_shadows'' (JBool b) s"
| "handle (Slider_min_area v) s = set_in ''motion'' ''min_area'' (JNum v) s"
| "handle (Slider_min_duration v) s = set_in ''motion'' ''min_duration_seconds'' (JNum v) s"
| "handle (Slider_pre_record v) s = set_in ''motion'' ''pre_record_seconds'' (JNum v) s"
| "handle (Slider_post_record v) s = set_in ''motion'' ''post_record_seconds'' (JNum v) s"
| "handle (Switch_continuous b) s = set_in ''recording'' ''continuous'' (JBool b) s"
| "handle (Switch_on_motion b) s = set_in ''recording'' ''on_motion'' (JBool b) s"
| "handle (Input_storage_path v) s = set_in ''recording'' ''storage_path'' (JStr v) s"
| "handle (Slider_max_file_duration v) s =
     set_in ''recording'' ''max_file_duration_minutes'' (JNum v) s"
| "handle (Switch_send_alerts b) s = set_in ''telegram'' ''send_alerts'' (JBool b) s"
| "handle (Switch_send_video_clips b) s = set_in ''telegram'' ''send_video_clips'' (JBool b) s"

text \<open>
  Whether the dialog can deliver an event in state \<open>s\<close>: the controls below the
  motion switch are rendered only while \<open>settings.motion.enabled\<close> is truthy, and a
  slider reports only what its props allow.
\<close>

definition motion_shown :: "jsval \<Rightarrow> bool" where
  "motion_shown s = truthy (get (get s ''motion'') ''enabled'')"

fun offered :: "jsval \<Rightarrow> event \<Rightarrow> bool" where
  "offered s (Slider_history v) = (motion_shown s \<and> slider_emits 100 1000 50 v)"
| "offered s (Slider_var_threshold v) = (motion_shown s \<and> slider_emits 1 50 1 v)"
| "offered s (Slider_n_mixtures v) = (motion_shown s \<and> slider_emits 1 10 1 v)"
| "offered s (Switch_detect_shadows b) = motion_shown s"
| "offered s (Slider_min_area v) = (motion_shown s \<and> slider_emits 100 5000 100 v)"
| "offered s (Slider_min_duration v) = (motion_shown s \<and> slider_emits 0 10 1 v)"
| "offered s (Slider_pre_record v) = (motion_shown s \<and> slider_emits 0 30 1 v)"
| "offered s (Slider_post_record v) = (motion_shown s \<and> slider_emits 0 60 5 v)"
| "offered s (Slider_max_file_duration v) = slider_emits 5 180 5 v"
| "offered s e = True"

text \<open>
  A session with the dialog: the events in order, from a state. \<open>None\<close> when an event is
  one the dialog cannot deliver in the state reached.
\<close>

fun run :: "event list \<Rightarrow> jsval \<Rightarrow> jsval option" where
  "run [] s = Some s"
| "run (e # es) s = (if offered s e then run es (handle e s) else None)"

text \<open>\<open>handleSave\<close> puts the whole \<open>settings\<close> object to \<open>/cameras/{id}\<close>.\<close>

definition CameraSettingsDialog_handleSave :: "jsval \<Rightarrow> jsval" where
  "CameraSettingsDialog_handleSave s = s"

text \<open>
  The same camera after the dialog saved a session on it: motion detection enabled, three
  seconds of pre-roll.
\<close>

definition camera_with_motion :: jsval where
  "camera_with_motion =
     with_key camera_without_motion ''motion''
       (get (handle (Slider_pre_record 3)
               (handle (Switch_motion_enabled True) (initial_settings camera_without_motion)))
          ''motion'')"

text \<open>The keys of the \<open>settings\<close> object, as the initial state lists them.\<close>

definition top_keys :: "string list" where
  "top_keys = [''name'', ''url'', ''username'', ''password'', ''motion'', ''recording'', ''telegram'']"

text \<open>
  What the dialog's own controls keep true of a motion configuration: the minimum area
  and the minimum duration are within their sliders' ranges and steps, and so are the
  pre-roll and post-roll seconds once they are present. The dialog's default motion
  configuration has no pre-roll and no post-roll entry; the sliders add them.
\<close>

definition in_range :: "int \<Rightarrow> int \<Rightarrow> int \<Rightarrow> jsval \<Rightarrow> bool" where
  "in_range lo hi m v = (case v of JNum n \<Rightarrow> lo \<le> n \<and> n \<le> hi \<and> n mod m = 0 | _ \<Rightarrow> False)"

definition dialog_bounds :: "jsval \<Rightarrow> bool" where
  "dialog_bounds m =
     ((get m ''pre_record_seconds'' = JUndefined \<or> in_range 0 30 1 (get m ''pre_record_seconds''))
      \<and> (get m ''post_record_seconds'' = JUndefined
           \<or> in_range 0 60 5 (get m ''post_record_seconds''))
      \<and> in_range 0 10 1 (get m ''min_duration_seconds'')
      \<and> in_range 100 5000 100 (get m ''min_area''))"

text \<open>The bounds as the specification words them: all four entries present and in range.\<close>

definition claimed_bounds :: "jsval \<Rightarrow> bool" where
  "claimed_bounds m =
     (in_range 0 30 1 (get m ''pre_record_seconds'')
      \<and> in_range 0 60 5 (get m ''post_record_seconds'')
      \<and> in_range 0 10 1 (get m ''min_duration_seconds'')
      \<and> in_range 100 5000 100 (get m ''min_area''))"

text \<open>
  The entries of a motion configuration. First as the specification lists them, then as
  the dialog builds them: the default object, the two entries the sliders add, and the
  five background-model parameters.
\<close>

definition claimed_motion_keys :: "string list" where
  "claimed_motion_keys =
     [''enabled'', ''mog2'', ''min_area'', ''min_duration_seconds'', ''pre_record_seconds'',
      ''post_record_seconds'', ''exclusion_zones'']"

definition claimed_mog2_keys :: "string list" where
  "claimed_mog2_keys = [''history'', ''var_threshold'', ''n_mixtures'', ''detect_shadows'']"

definition consists_of :: "jsval \<Rightarrow> string list \<Rightarrow> bool" where
  "consists_of v ks = (set (keys v) = set ks)"

definition claimed_shape :: "jsval \<Rightarrow> bool" where
  "claimed_shape m =
     (consists_of m claimed_motion_keys \<and> consists_of (get m ''mog2'') claimed_mog2_keys)"

definition default_motion_keys :: "string list" where
  "default_motion_keys =
     [''enabled'', ''mog2'', ''min_area'', ''min_duration_seconds'', ''exclusion_zones'']"

definition dialog_mog2_keys :: "string list" where
  "dialog_mog2_keys =
     [''history'', ''var_threshold'', ''detect_shadows'', ''learning_rate'', ''n_mixtures'']"

definition dialog_shape :: "jsval \<Rightarrow> bool" where
  "dialog_shape m =
     (set default_motion_keys \<subseteq> set (keys m)
      \<and> set (keys m) \<subseteq> set claimed_motion_keys
      \<and> keys (get m ''mog2'') = dialog_mog2_keys)"

text \<open>The entry of the motion configuration a control writes, if it writes one.\<close>

fun motion_key_of :: "event \<Rightarrow> string option" where
  "motion_key_of (Switch_motion_enabled b) = Some ''enabled''"
| "motion_key_of (Slider_history v) = Some ''mog2''"
| "motion_key_of (Slider_var_threshold v) = Some ''mog2''"
| "motion_key_of (Slider_n_mixtures v) = Some ''mog2''"
| "motion_key_of (Switch_detect_shadows b) = Some ''mog2''"
| "motion_key_of (Slider_min_area v) = Some ''min_area''"
| "motion_key_of (Slider_min_duration v) = Some ''min_duration_seconds''"
| "motion_key_of (Slider_pre_record v) = Some ''pre_record_seconds''"
| "motion_key_of (Slider_post_record v) = Some ''post_record_seconds''"
| "motion_key_of e = None"

text \<open>
  A motion configuration of the dialog's shape: an object with the entries above whose
  background-model entry is an object of the five parameters.
\<close>

definition shape_inv :: "jsval \<Rightarrow> bool" where
  "shape_inv m = (is_obj m \<and> is_obj (get m ''mog2'') \<and> dialog_shape m)"

section \<open>Settings page\<close>

record settings_page =
  settings :: jsval
  settings_loading :: bool
  saving :: bool

definition settings_page_init :: settings_page where
  "settings_page_init = \<lparr>settings = JNull, settings_loading = True, saving = False\<rparr>"

text \<open>\<open>fetchSettings\<close>, given the reply to \<open>GET /settings\<close> (\<open>None\<close>: rejected).\<close>

definition fetchSettings :: "jsval option \<Rightarrow> settings_page \<Rightarrow> settings_page" where
  "fetchSettings r p =
     (case r of
        Some data \<Rightarrow> p\<lparr>settings := data, settings_loading := False\<rparr>
      | None \<Rightarrow> p\<lparr>settings_loading := False\<rparr>)"

text \<open>The object \<open>handleSave\<close> puts to \<open>/settings\<close>.\<close>

definition Settings_handleSave :: "jsval \<Rightarrow> jsval" where
  "Settings_handleSave s =
     JObj [(''performance_profile'', get s ''performance_profile''),
           (''telegram_bot_token'', get s ''telegram_bot_token''),
           (''telegram_chat_id'', get s ''telegram_chat_id''),
           (''default_storage_path'', get s ''default_storage_path'')]"

datatype settings_event =
    Select_profile string
  | Input_bot_token string
  | Input_chat_id string
  | Input_default_storage_path string

fun settings_handle :: "settings_event \<Rightarrow> jsval \<Rightarrow> jsval" where
  "settings_handle (Select_profile v) s = with_key s ''performance_profile'' (JStr v)"
| "settings_handle (Input_bot_token v) s = with_key s ''telegram_bot_token'' (JStr v)"
| "settings_handle (Input_chat_id v) s = with_key s ''telegram_chat_id'' (JStr v)"
| "settings_handle (Input_default_storage_path v) s =
     with_key s ''default_storage_path'' (JStr v)"

text \<open>The select offers one item per entry of \<open>settings.profiles\<close>.\<close>

fun settings_offered :: "jsval \<Rightarrow> settings_event \<Rightarrow> bool" where
  "settings_offered s (Select_profile v) = (v \<in> set (keys (get s ''profiles'')))"
| "settings_offered s e = True"

fun settings_run :: "settings_event list \<Rightarrow> jsval \<Rightarrow> jsval option" where
  "settings_run [] s = Some s"
| "settings_run (e # es) s =
     (if settings_offered s e then settings_run es (settings_handle e s) else None)"

text \<open>
  One profile is active: \<open>performance_profile\<close> is a string, and it is a key of
  \<open>profiles\<close>.
\<close>

definition profile_selected :: "jsval \<Rightarrow> bool" where
  "profile_selected s =
     (case get s ''performance_profile'' of
        JStr p \<Rightarrow> p \<in> set (keys (get s ''profiles''))
      | _ \<Rightarrow> False)"

section \<open>Recordings page\<close>

record filters =
  camera_id :: string
  start_date :: string
  end_date :: string
  record_type :: string

definition initial_filters :: filters where
  "initial_filters =
     \<lparr>camera_id = ''all'', start_date = [], end_date = [], record_type = ''all''\<rparr>"

text \<open>The query parameters \<open>fetchRecordings\<close> sends: one per non-empty filter.\<close>

definition fetchRecordings_params :: "filters \<Rightarrow> (string \<times> string) list" where
  "fetchRecordings_params f =
     (if camera_id f \<noteq> [] then [(''camera_id'', camera_id f)] else []) @
     (if start_date f \<noteq> [] then [(''start_date'', start_date f)] else []) @
     (if end_date f \<noteq> [] then [(''end_date'', end_date f)] else []) @
     (if record_type f \<noteq> [] then [(''record_type'', record_type f)] else [])"

datatype filter_event =
    Select_camera string
  | Select_type string
  | Input_start_date string
  | Input_end_date string

fun onFilterChange :: "filter_event \<Rightarrow> filters \<Rightarrow> filters" where
  "onFilterChange (Select_camera v) f = f\<lparr>camera_id := (if v = ''all'' then [] else v)\<rparr>"
| "onFilterChange (Select_type v) f = f\<lparr>record_type := (if v = ''all'' then [] else v)\<rparr>"
| "onFilterChange (Input_start_date v) f = f\<lparr>start_date := v\<rparr>"
| "onFilterChange (Input_end_date v) f = f\<lparr>end_date := v\<rparr>"

text \<open>The items of the type select.\<close>

definition type_items :: "string list" where
  "type_items = [''all'', ''continuous'', ''motion'']"

text \<open>The badge of a recording in the list.\<close>

definition recordTypeBadgeClass :: "jsval \<Rightarrow> string" where
  "recordTypeBadgeClass recording =
     (if get recording ''record_type'' = JStr ''motion'' then ''status-badge bg-blue-500/20 text-blue-400''
      else ''status-badge bg-gray-500/20 text-gray-400'')"

section \<open>PreRollBuffer\<close>

text \<open>
  Modelled from the spec: the PreRollBuffer (section 4.3) lives in the backend, which is
  not among the sources. It is a fixed-length ring buffer of the most recent N frames,
  N = \<open>pre_record_seconds * target_fps\<close>, per camera. Every decoded frame is appended,
  overwriting the oldest, regardless of motion state; reading gives the frames in
  chronological order and leaves the buffer as it is.
\<close>

record 'f pre_roll_buffer =
  capacity :: nat
  frames :: "'f list"

text \<open>Modelled from the spec: the empty buffer of a camera, of length N.\<close>

definition new_buffer :: "nat \<Rightarrow> nat \<Rightarrow> 'f pre_roll_buffer" where
  "new_buffer pre_record_seconds target_fps =
     \<lparr>capacity = pre_record_seconds * target_fps, frames = []\<rparr>"

text \<open>Modelled from the spec: the most recent \<open>n\<close> of a sequence of frames.\<close>

definition most_recent :: "nat \<Rightarrow> 'f list \<Rightarrow> 'f list" where
  "most_recent n fs = drop (length fs - n) fs"

text \<open>Modelled from the spec: appending a frame, overwriting the oldest when full.\<close>

definition append_frame :: "'f \<Rightarrow> 'f pre_roll_buffer \<Rightarrow> 'f pre_roll_buffer" where
  "append_frame f b = b\<lparr>frames := most_recent (capacity b) (frames b @ [f])\<rparr>"

text \<open>Modelled from the spec: reading, in chronological order.\<close>

definition read_buffer :: "'f pre_roll_buffer \<Rightarrow> 'f list \<times> 'f pre_roll_buffer" where
  "read_buffer b = (frames b, b)"

text \<open>
  What the frame source hands to the buffer: a decoded frame (with the motion state of
  the moment), or nothing while the camera is disconnected.
\<close>

datatype 'f source_event = Decoded 'f bool | Disconnected

fun buffer_step :: "'f pre_roll_buffer \<Rightarrow> 'f source_event \<Rightarrow> 'f pre_roll_buffer" where
  "buffer_step b (Decoded f motion) = append_frame f b"
| "buffer_step b Disconnected = b"

fun decoded :: "'f source_event list \<Rightarrow> 'f list" where
  "decoded [] = []"
| "decoded (Decoded f motion # es) = f # decoded es"
| "decoded (Disconnected # es) = decoded es"

section \<open>RecordingController\<close>

text \<open>
  Modelled from the spec: the RecordingController (section 4.4, motion mode) lives in the
  backend, which is not among the sources. Its states are Idle, Recording (with its
  trigger), Draining (the post-roll countdown, here the time at which it ends) and
  Finalizing. It is a transition function over (state, signal), giving the next state and
  the actions taken; where the spec names no transition, and for the frames and errors
  of continuous mode (segment rotation is not modelled), the function gives \<open>None\<close>.
  \<^item> On event-open, if not already recording, a new segment is opened and the pre-roll
    buffer is drained into it first.
  \<^item> On event-close the controller goes to Draining and keeps writing live frames for
    \<open>post_record_seconds\<close> before it closes the segment.
  \<^item> If a new motion event opens during Draining, the drain is cancelled and the
    controller remains in Recording.
  \<^item> After the writer is closed a finalize step runs; the segment becomes complete on
    success and failed on failure.
  \<^item> A write error marks the segment failed and resets the controller to Idle.
  Times are in seconds.
\<close>

datatype trigger = Continuous | Motion

datatype rc_state = Idle | Recording trigger | Draining nat | Finalizing

datatype signal =
    EventOpen nat
  | EventClose nat
  | Frame nat
  | Finalized bool
  | WriteError

datatype action =
    OpenSegment nat
  | WritePreRoll nat
  | WriteFrame nat nat
  | CloseSegment nat
  | MarkComplete nat
  | MarkFailed nat

record controller =
  state :: rc_state
  segment :: nat
  next_segment :: nat

text \<open>Modelled from the spec: the transition function of the motion mode.\<close>

fun step :: "nat \<Rightarrow> controller \<Rightarrow> signal \<Rightarrow> (controller \<times> action list) option" where
  "step post_record_seconds c (EventOpen t) =
     (case state c of
        Idle \<Rightarrow>
          Some (c\<lparr>state := Recording Motion, segment := next_segment c,
                  next_segment := Suc (next_segment c)\<rparr>,
                [OpenSegment (next_segment c), WritePreRoll (next_segment c)])
      | Recording g \<Rightarrow> Some (c, [])
      | Draining d \<Rightarrow> Some (c\<lparr>state := Recording Motion\<rparr>, [])
      | Finalizing \<Rightarrow> None)"
| "step post_record_seconds c (EventClose t) =
     (case state c of
        Recording Motion \<Rightarrow> Some (c\<lparr>state := Draining (t + post_record_seconds)\<rparr>, [])
      | _ \<Rightarrow> None)"
| "step post_record_seconds c (Frame t) =
     (case state c of
        Idle \<Rightarrow> Some (c, [])
      | Recording Motion \<Rightarrow> Some (c, [WriteFrame (segment c) t])
      | Recording Continuous \<Rightarrow> None
      | Draining d \<Rightarrow>
          (if t < d then Some (c, [WriteFrame (segment c) t])
           else Some (c\<lparr>state := Finalizing\<rparr>, [CloseSegment (segment c)]))
      | Finalizing \<Rightarrow> Some (c, []))"
| "step post_record_seconds c (Finalized ok) =
     (case state c of
        Finalizing \<Rightarrow>
          Some (c\<lparr>state := Idle\<rparr>,
                [if ok then MarkComplete (segment c) else MarkFailed (segment c)])
      | _ \<Rightarrow> None)"
| "step post_record_seconds c WriteError =
     (case state c of
        Recording Motion \<Rightarrow> Some (c\<lparr>state := Idle\<rparr>, [MarkFailed (segment c)])
      | Draining d \<Rightarrow> Some (c\<lparr>state := Idle\<rparr>, [MarkFailed (segment c)])
      | _ \<Rightarrow> None)"

text \<open>Modelled from the spec: a run of the controller over a sequence of signals.\<close>

fun steps :: "nat \<Rightarrow> controller \<Rightarrow> signal list \<Rightarrow> (controller \<times> action list) option" where
  "steps post_record_seconds c [] = Some (c, [])"
| "steps post_record_seconds c (x # xs) =
     (case step post_record_seconds c x of
        None \<Rightarrow> None
      | Some (c', as) \<Rightarrow>
          (case steps post_record_seconds c' xs of
             None \<Rightarrow> None
           | Some (c'', bs) \<Rightarrow> Some (c'', as @ bs)))"

fun splits_segment :: "action \<Rightarrow> bool" where
  "splits_segment (OpenSegment i) = True"
| "splits_segment (CloseSegment i) = True"
| "splits_segment a = False"

section \<open>Properties\<close>

subsection \<open>Objects\<close>

lemma is_obj_spread: "is_obj v \<Longrightarrow> JObj (spread v) = v"
  by (cases v) (simp_all add: is_obj_def)

lemma is_obj_with_key: "is_obj (with_key v k x)"
  by (simp add: with_key_def is_obj_def)

lemma get_with_key_obj:
  "is_obj v \<Longrightarrow> get (with_key v k x) k' = (if k' = k then x else get v k')"
  by (cases v) (simp_all add: is_obj_def with_key_def update_conv')

lemma get_with_key_same: "get (with_key v k x) k = x"
  by (simp add: with_key_def update_conv')

lemma keys_with_key:
  "keys (with_key v k x) = (if k \<in> set (keys v) then keys v else keys v @ [k])"
  by (simp add: with_key_def keys_def update_keys)

lemma get_defined_is_obj: "get v k \<noteq> JUndefined \<Longrightarrow> is_obj v"
  by (cases v) (simp_all add: is_obj_def)

subsection \<open>Adding a camera\<close>

text \<open>
  C1. The supervisor enforces the upper bound of 20 cameras. In every state that already
  holds 20 cameras, \<open>add\<close> is rejected with the capacity error; an add-camera
  submission of the Dashboard against such a supervisor leaves the supervisor's cameras
  (still 20) and the page state as they were and shows no success toast, whatever the
  form holds; and a page that lists the 20 cameras has its add button disabled, so that
  clicking it does not open the add dialog.
\<close>

theorem C1_add_beyond_capacity_rejected:
  assumes full: "length running = 20"
  shows "add camera running = Inl CapacityError
         \<and> fst (handleAddCamera (supervisor_api detail) (st, running)) = (st, running)
         \<and> filter is_success (snd (handleAddCamera (supervisor_api detail) (st, running))) = []
         \<and> addCameraDisabled (st\<lparr>cameras := running\<rparr>)
         \<and> clickAddCamera (st\<lparr>cameras := running\<rparr>) = st\<lparr>cameras := running\<rparr>"
proof -
  have rej: "add c running = Inl CapacityError" for c
    using full by (simp add: add_def max_cameras_def)
  have post: "post_cameras (supervisor_api detail) c running
                = (Rejected (detail CapacityError), running)" for c
    by (simp add: supervisor_api_def rej)
  have submit: "handleAddCamera (supervisor_api detail) (st, running)
               = ((st, running),
                  if name (newCamera st) = [] \<or> url (newCamera st) = []
                  then [ToastError (Text Msg_fill_required_fields)]
                  else [Post_cameras (newCamera st),
                        ToastError (if truthy (detail CapacityError)
                                    then Dynamic (detail CapacityError)
                                    else Text Msg_camera_add_failed)])"
    by (simp add: handleAddCamera_def post)
  have dis: "addCameraDisabled (st\<lparr>cameras := running\<rparr>)"
    using full by (simp add: addCameraDisabled_def)
  then have click: "clickAddCamera (st\<lparr>cameras := running\<rparr>) = st\<lparr>cameras := running\<rparr>"
    by (simp add: clickAddCamera_def)
  show ?thesis
    using rej dis click by (simp add: submit)
qed

theorem C1_add_beyond_capacity_rejected_witness:
  "add JNull (replicate 20 JNull) = Inl CapacityError
   \<and> fst (handleAddCamera (supervisor_api (\<lambda>e. JStr ''limit''))
            (dashboard_init\<lparr>newCamera := \<lparr>name = ''a'', url = ''b'', username = [], password = []\<rparr>\<rparr>,
             replicate 20 JNull))
       = (dashboard_init\<lparr>newCamera := \<lparr>name = ''a'', url = ''b'', username = [], password = []\<rparr>\<rparr>,
          replicate 20 JNull)"
  using C1_add_beyond_capacity_rejected
    [of "replicate 20 JNull" JNull "\<lambda>e. JStr ''limit''"
        "dashboard_init\<lparr>newCamera := \<lparr>name = ''a'', url = ''b'', username = [], password = []\<rparr>\<rparr>"]
  by simp

text \<open>
  C9. An add-camera submission whose name or URL field is empty issues no create request:
  the handler only shows the validation toast and returns, leaving the page state and the
  backend (the camera set) as they were, whatever the backend would have answered.
\<close>

theorem C9_empty_field_no_request:
  assumes "name (newCamera st) = [] \<or> url (newCamera st) = []"
  shows "handleAddCamera srv (st, b) = ((st, b), [ToastError (Text Msg_fill_required_fields)])
         \<and> filter is_post (snd (handleAddCamera srv (st, b))) = []"
  using assms by (simp add: handleAddCamera_def)

theorem C9_empty_field_no_request_witness:
  "handleAddCamera \<lparr>post_cameras = (\<lambda>c b. (Resolved, Suc b)), get_cameras = (\<lambda>b. Some [])\<rparr>
     (dashboard_init\<lparr>newCamera := \<lparr>name = ''cam'', url = [], username = [], password = []\<rparr>\<rparr>,
      0::nat)
   = ((dashboard_init\<lparr>newCamera := \<lparr>name = ''cam'', url = [], username = [], password = []\<rparr>\<rparr>,
       0),
      [ToastError (Text Msg_fill_required_fields)])"
  using C9_empty_field_no_request
    [of "dashboard_init\<lparr>newCamera := \<lparr>name = ''cam'', url = [], username = [], password = []\<rparr>\<rparr>"
        "\<lparr>post_cameras = (\<lambda>c b. (Resolved, Suc b)), get_cameras = (\<lambda>b. Some [])\<rparr>" "0::nat"]
  by simp

subsection \<open>The pre-roll buffer\<close>

lemma length_most_recent: "length (most_recent n fs) = min (length fs) n"
  by (simp add: most_recent_def)

lemma most_recent_append:
  "most_recent n (most_recent n xs @ ys) = most_recent n (xs @ ys)"
proof -
  let ?b = "length xs - n"
  have "most_recent n xs @ ys = drop ?b (xs @ ys)"
    by (simp add: most_recent_def)
  moreover have "length (drop ?b (xs @ ys)) - n + ?b = length (xs @ ys) - n"
    by simp
  ultimately show ?thesis
    by (simp only: most_recent_def drop_drop)
qed

lemma most_recent_all: "length fs \<le> n \<Longrightarrow> most_recent n fs = fs"
  by (simp add: most_recent_def)

lemma buffer_run:
  "length (frames b) \<le> capacity b \<Longrightarrow>
   frames (foldl buffer_step b evs) = most_recent (capacity b) (frames b @ decoded evs)
   \<and> capacity (foldl buffer_step b evs) = capacity b"
proof (induction evs arbitrary: b)
  case Nil
  then show ?case by (simp add: most_recent_all)
next
  case (Cons e evs)
  show ?case
  proof (cases e)
    case Disconnected
    with Cons show ?thesis by simp
  next
    case (Decoded f m)
    let ?b = "append_frame f b"
    have len: "length (frames ?b) \<le> capacity ?b"
      by (simp add: append_frame_def length_most_recent)
    have cap: "capacity ?b = capacity b"
      by (simp add: append_frame_def)
    have fr: "frames ?b = most_recent (capacity b) (frames b @ [f])"
      by (simp add: append_frame_def)
    have "frames (foldl buffer_step ?b evs)
            = most_recent (capacity b) (most_recent (capacity b) (frames b @ [f]) @ decoded evs)"
      using Cons.IH [OF len] cap fr by simp
    also have "\<dots> = most_recent (capacity b) ((frames b @ [f]) @ decoded evs)"
      by (rule most_recent_append)
    finally have "frames (foldl buffer_step ?b evs)
            = most_recent (capacity b) (frames b @ decoded (e # evs))"
      using Decoded by simp
    moreover have "capacity (foldl buffer_step ?b evs) = capacity b"
      using Cons.IH [OF len] cap by simp
    ultimately show ?thesis using Decoded by simp
  qed
qed

text \<open>
  C2. For pre-roll seconds P and target fps F, after any sequence of source events
  (frames decoded with or without motion, and disconnections) the buffer holds the most
  recent P * F decoded frames in order: as many frames as were decoded until there are
  P * F of them, exactly P * F from then on, and never more.
\<close>

theorem C2_pre_roll_buffer_bounded:
  "frames (foldl buffer_step (new_buffer P F) evs) = most_recent (P * F) (decoded evs)
   \<and> length (frames (foldl buffer_step (new_buffer P F) evs)) = min (length (decoded evs)) (P * F)
   \<and> length (frames (foldl buffer_step (new_buffer P F) evs)) \<le> P * F"
proof -
  have "length (frames (new_buffer P F :: 'a pre_roll_buffer))
          \<le> capacity (new_buffer P F :: 'a pre_roll_buffer)"
    by (simp add: new_buffer_def)
  from buffer_run [OF this, of evs]
  have "frames (foldl buffer_step (new_buffer P F) evs) = most_recent (P * F) (decoded evs)"
    by (simp add: new_buffer_def)
  then show ?thesis
    by (simp add: length_most_recent)
qed

subsection \<open>The recording controller\<close>

lemma draining_frames:
  assumes "state c = Draining d" and "\<forall>t\<in>set ts. t < d"
  shows "steps p c (map Frame ts @ xs)
           = (case steps p c xs of
                None \<Rightarrow> None
              | Some (c', bs) \<Rightarrow> Some (c', map (WriteFrame (segment c)) ts @ bs))"
  using assms
proof (induction ts)
  case Nil
  then show ?case by (simp split: option.splits)
next
  case (Cons t ts)
  then have "step p c (Frame t) = Some (c, [WriteFrame (segment c) t])"
    by simp
  with Cons show ?case
    by (simp split: option.splits)
qed

text \<open>
  C4. A controller recording a motion event receives the event's close at \<open>t1\<close>, then
  live frames, then the open of a second event at \<open>t2\<close>, less than
  \<open>post_record_seconds\<close> after \<open>t1\<close>. The second event finds the controller in
  Draining, cancels the drain and leaves it recording into the same segment: the frames
  in between were written to that segment, and no segment was closed or opened.
\<close>

theorem C4_event_during_draining_extends_segment:
  assumes rec: "state c = Recording Motion"
    and before: "\<forall>t\<in>set ts. t \<le> t2"
    and close: "t2 < t1 + post_record_seconds"
  shows "steps post_record_seconds c (EventClose t1 # map Frame ts @ [EventOpen t2])
           = Some (c, map (WriteFrame (segment c)) ts)
         \<and> filter splits_segment (map (WriteFrame (segment c)) ts) = []"
proof -
  let ?d = "c\<lparr>state := Draining (t1 + post_record_seconds)\<rparr>"
  have s1: "step post_record_seconds c (EventClose t1) = Some (?d, [])"
    using rec by simp
  have fr: "\<forall>t\<in>set ts. t < t1 + post_record_seconds"
    using before close by auto
  have s3: "steps post_record_seconds ?d [EventOpen t2] = Some (c, [])"
    using rec by simp
  have "steps post_record_seconds ?d (map Frame ts @ [EventOpen t2])
          = Some (c, map (WriteFrame (segment c)) ts)"
    using draining_frames [of ?d "t1 + post_record_seconds" ts post_record_seconds "[EventOpen t2]"]
      fr s3
    by simp
  moreover have "filter splits_segment (map (WriteFrame (segment c)) ts) = []"
    by (induction ts) simp_all
  ultimately show ?thesis
    using s1 by simp
qed

theorem C4_event_during_draining_extends_segment_witness:
  "steps 10 \<lparr>state = Recording Motion, segment = 3, next_segment = 4\<rparr>
     [EventClose 100, Frame 101, Frame 105, EventOpen 107]
   = Some (\<lparr>state = Recording Motion, segment = 3, next_segment = 4\<rparr>,
           [WriteFrame 3 101, WriteFrame 3 105])"
  using C4_event_during_draining_extends_segment
    [of "\<lparr>state = Recording Motion, segment = 3, next_segment = 4\<rparr>" "[101, 105]" 107 100 10]
  by simp

subsection \<open>Camera status\<close>











subsection \<open>The camera settings dialog\<close>

lemma in_range_defined: "in_range lo hi m v \<Longrightarrow> v \<noteq> JUndefined"
  by (auto simp add: in_range_def)

lemma dialog_bounds_is_obj: "dialog_bounds m \<Longrightarrow> is_obj m"
  unfolding dialog_bounds_def using in_range_defined get_defined_is_obj by blast

lemma slider_in_range:
  "slider_emits lo hi stp v \<Longrightarrow> lo mod stp = 0 \<Longrightarrow> in_range lo hi stp (JNum v)"
proof -
  assume a: "slider_emits lo hi stp v" and b: "lo mod stp = 0"
  from a have "(v - lo) mod stp = 0" by (simp add: slider_emits_def)
  with b have "v mod stp = 0"
    by (metis add.right_neutral diff_add_cancel mod_add_eq mod_mod_trivial)
  with a show ?thesis by (simp add: in_range_def slider_emits_def)
qed

lemma handle_top_keys:
  "keys s = top_keys \<Longrightarrow> keys (handle e s) = top_keys"
  by (cases e) (simp_all add: set_top_def set_in_def set_mog2_def keys_with_key top_keys_def)

lemma is_obj_handle: "is_obj (handle e s)"
  by (cases e) (simp_all add: set_top_def set_in_def set_mog2_def is_obj_with_key)

lemma handle_dialog_bounds:
  assumes "is_obj s" and "dialog_bounds (get s ''motion'')" and "offered s e"
  shows "dialog_bounds (get (handle e s) ''motion'')"
proof -
  have m: "is_obj (get s ''motion'')"
    using assms(2) by (rule dialog_bounds_is_obj)
  have other: "dialog_bounds (with_key (get s ''motion'') k x)"
    if "k \<notin> {''pre_record_seconds'', ''post_record_seconds'', ''min_duration_seconds'', ''min_area''}"
    for k x
    using that assms(2) m by (auto simp add: dialog_bounds_def get_with_key_obj)
  show ?thesis
  proof (cases e)
    case (Slider_min_area v)
    with assms(3) have "in_range 100 5000 100 (JNum v)"
      by (simp add: slider_in_range)
    with Slider_min_area assms m show ?thesis
      by (simp add: set_in_def get_with_key_obj dialog_bounds_def)
  next
    case (Slider_min_duration v)
    with assms(3) have "in_range 0 10 1 (JNum v)"
      by (simp add: slider_in_range)
    with Slider_min_duration assms m show ?thesis
      by (simp add: set_in_def get_with_key_obj dialog_bounds_def)
  next
    case (Slider_pre_record v)
    with assms(3) have "in_range 0 30 1 (JNum v)"
      by (simp add: slider_in_range)
    with Slider_pre_record assms m show ?thesis
      by (simp add: set_in_def get_with_key_obj dialog_bounds_def)
  next
    case (Slider_post_record v)
    with assms(3) have "in_range 0 60 5 (JNum v)"
      by (simp add: slider_in_range)
    with Slider_post_record assms m show ?thesis
      by (simp add: set_in_def get_with_key_obj dialog_bounds_def)
  qed (use assms(1,2) other in \<open>simp_all add: set_top_def set_in_def set_mog2_def get_with_key_obj\<close>)
qed

lemma run_dialog_bounds:
  "run es s = Some s' \<Longrightarrow> is_obj s \<Longrightarrow> dialog_bounds (get s ''motion'')
   \<Longrightarrow> dialog_bounds (get s' ''motion'')"
proof (induction es arbitrary: s)
  case Nil
  then show ?case by simp
next
  case (Cons e es)
  from Cons.prems(1) have off: "offered s e" and rest: "run es (handle e s) = Some s'"
    by (simp_all split: if_splits)
  from Cons.IH [OF rest is_obj_handle handle_dialog_bounds [OF Cons.prems(2,3) off]]
  show ?case .
qed


lemma initial_motion:
  "get (initial_settings camera) ''motion'' = js_or (get camera ''motion'') default_motion"
  by (simp add: initial_settings_def)

lemma is_obj_initial: "is_obj (initial_settings camera)"
  by (simp add: initial_settings_def is_obj_def)

lemma default_motion_bounds: "dialog_bounds default_motion"
  by (simp add: dialog_bounds_def default_motion_def in_range_def)

lemma shape_with_key:
  assumes "shape_inv m"
    and "k \<in> {''enabled'', ''min_area'', ''min_duration_seconds'', ''pre_record_seconds'',
              ''post_record_seconds''}"
  shows "shape_inv (with_key m k x)"
  using assms
  by (auto simp add: shape_inv_def dialog_shape_def is_obj_with_key get_with_key_obj
        keys_with_key claimed_motion_keys_def)

lemma shape_with_mog2:
  assumes "shape_inv m"
    and "k \<in> {''history'', ''var_threshold'', ''n_mixtures'', ''detect_shadows''}"
  shows "shape_inv (with_key m ''mog2'' (with_key (get m ''mog2'') k x))"
proof -
  from assms(1) have "''mog2'' \<in> set (keys m)"
    by (auto simp add: shape_inv_def dialog_shape_def default_motion_keys_def)
  then have "keys (with_key m ''mog2'' (with_key (get m ''mog2'') k x)) = keys m"
    by (simp add: keys_with_key)
  moreover have "keys (with_key (get m ''mog2'') k x) = dialog_mog2_keys"
    using assms by (auto simp add: shape_inv_def dialog_shape_def keys_with_key dialog_mog2_keys_def)
  ultimately show ?thesis
    using assms(1)
    by (simp add: shape_inv_def dialog_shape_def is_obj_with_key get_with_key_same)
qed

lemma handle_shape:
  assumes "is_obj s" and "shape_inv (get s ''motion'')"
  shows "shape_inv (get (handle e s) ''motion'')"
  using assms
  by (cases e)
     (simp_all add: set_top_def set_in_def set_mog2_def get_with_key_obj get_with_key_same
        shape_with_key shape_with_mog2)

lemma run_shape:
  "run es s = Some s' \<Longrightarrow> is_obj s \<Longrightarrow> shape_inv (get s ''motion'')
   \<Longrightarrow> shape_inv (get s' ''motion'')"
proof (induction es arbitrary: s)
  case Nil
  then show ?case by simp
next
  case (Cons e es)
  from Cons.prems(1) have rest: "run es (handle e s) = Some s'"
    by (simp split: if_splits)
  from Cons.IH [OF rest is_obj_handle handle_shape [OF Cons.prems(2,3)]]
  show ?case .
qed

lemma default_motion_shape: "shape_inv default_motion"
  by (simp add: shape_inv_def dialog_shape_def default_motion_def default_mog2_def is_obj_def
        keys_def default_motion_keys_def claimed_motion_keys_def dialog_mog2_keys_def)

lemma run_top_keys:
  "run es s = Some s' \<Longrightarrow> keys s = top_keys \<Longrightarrow> keys s' = top_keys"
proof (induction es arbitrary: s)
  case Nil
  then show ?case by simp
next
  case (Cons e es)
  from Cons.prems(1) have rest: "run es (handle e s) = Some s'"
    by (simp split: if_splits)
  from Cons.IH [OF rest handle_top_keys [OF Cons.prems(2)]]
  show ?case .
qed

lemma initial_top_keys: "keys (initial_settings camera) = top_keys"
  by (simp add: initial_settings_def keys_def top_keys_def)

lemma set_keys_with_key: "set (keys (with_key v k x)) = insert k (set (keys v))"
  by (auto simp add: keys_with_key)

lemma handle_motion_keys:
  assumes "is_obj s"
  shows "set (keys (get (handle e s) ''motion''))
           = set (keys (get s ''motion'')) \<union> set_option (motion_key_of e)"
  using assms
  by (cases e)
     (simp_all add: set_top_def set_in_def set_mog2_def get_with_key_obj get_with_key_same
        set_keys_with_key)

lemma run_motion_keys:
  "run es s = Some s' \<Longrightarrow> is_obj s
   \<Longrightarrow> set (keys (get s' ''motion''))
         = set (keys (get s ''motion'')) \<union> set (List.map_filter motion_key_of es)"
proof (induction es arbitrary: s)
  case Nil
  then show ?case by (simp add: List.map_filter_simps)
next
  case (Cons e es)
  from Cons.prems(1) have rest: "run es (handle e s) = Some s'"
    by (simp split: if_splits)
  from Cons.IH [OF rest is_obj_handle] handle_motion_keys [OF Cons.prems(2), of e]
  show ?case
    by (cases "motion_key_of e") (simp_all add: List.map_filter_simps)
qed

text \<open>
  C7. For a camera whose stored motion configuration is absent or already of the
  dialog's shape, the motion configuration the dialog holds after any session consists of
  the enabled flag, the background-model object, the minimum area, the minimum duration
  and the exclusion zones, optionally the pre-roll and post-roll seconds, and nothing
  else; the background-model object consists of exactly history, var_threshold,
  detect_shadows, learning_rate and n_mixtures. Its entries are those it started with
  and those the session's controls wrote: with no stored configuration it starts with
  the five entries of the default, and the pre-roll and post-roll seconds are present
  exactly when their sliders were moved.
\<close>

theorem C7_dialog_motion_shape:
  assumes stored: "\<not> truthy (get camera ''motion'') \<or> shape_inv (get camera ''motion'')"
    and session: "run es (initial_settings camera) = Some s"
  shows "dialog_shape (get s ''motion'')
         \<and> set (keys (get s ''motion''))
             = set (keys (get (initial_settings camera) ''motion''))
               \<union> set (List.map_filter motion_key_of es)
         \<and> keys (get (initial_settings camera) ''motion'')
             = (if truthy (get camera ''motion'') then keys (get camera ''motion'')
                else default_motion_keys)"
proof -
  have start: "shape_inv (get (initial_settings camera) ''motion'')"
  proof (cases "truthy (get camera ''motion'')")
    case True
    with stored show ?thesis by (simp add: initial_motion js_or_def)
  next
    case False
    then show ?thesis by (simp add: initial_motion js_or_def default_motion_shape)
  qed
  with session is_obj_initial have "shape_inv (get s ''motion'')"
    by (rule run_shape)
  then have shape: "dialog_shape (get s ''motion'')"
    by (simp add: shape_inv_def)
  have grown: "set (keys (get s ''motion''))
                 = set (keys (get (initial_settings camera) ''motion''))
                   \<union> set (List.map_filter motion_key_of es)"
    using session is_obj_initial by (rule run_motion_keys)
  have "keys default_motion = default_motion_keys"
    by (simp add: default_motion_def keys_def default_motion_keys_def)
  then have "keys (get (initial_settings camera) ''motion'')
               = (if truthy (get camera ''motion'') then keys (get camera ''motion'')
                  else default_motion_keys)"
    by (simp add: initial_motion js_or_def)
  with shape grown show ?thesis by simp
qed

theorem C7_dialog_motion_shape_witness:
  "dialog_shape
     (get (handle (Slider_post_record 20) (initial_settings camera_with_motion)) ''motion'')
   \<and> keys (get (handle (Slider_post_record 20) (initial_settings camera_with_motion)) ''motion'')
       = default_motion_keys @ [''pre_record_seconds'', ''post_record_seconds'']"
proof -
  have m: "get camera_with_motion ''motion''
             = JObj [(''enabled'', JBool True), (''mog2'', default_mog2), (''min_area'', JNum 500),
                     (''min_duration_seconds'', JNum 1), (''exclusion_zones'', JArr []),
                     (''pre_record_seconds'', JNum 3)]"
    by (simp add: camera_with_motion_def camera_without_motion_def with_key_def set_in_def
          initial_settings_def js_or_def default_motion_def)
  have stored: "\<not> truthy (get camera_with_motion ''motion'')
                  \<or> shape_inv (get camera_with_motion ''motion'')"
    unfolding m
    by (simp add: shape_inv_def dialog_shape_def is_obj_def keys_def default_mog2_def
          default_motion_keys_def claimed_motion_keys_def dialog_mog2_keys_def)
  have i: "get (initial_settings camera_with_motion) ''motion'' = get camera_with_motion ''motion''"
    unfolding initial_motion m by (simp add: js_or_def)
  have r: "run [Slider_post_record 20] (initial_settings camera_with_motion)
             = Some (handle (Slider_post_record 20) (initial_settings camera_with_motion))"
    by (simp add: motion_shown_def slider_emits_def i m)
  have g: "get (handle (Slider_post_record 20) (initial_settings camera_with_motion)) ''motion''
             = with_key (get (initial_settings camera_with_motion) ''motion'')
                 ''post_record_seconds'' (JNum 20)"
    by (simp add: set_in_def get_with_key_same)
  have k: "keys (get (handle (Slider_post_record 20) (initial_settings camera_with_motion)) ''motion'')
             = default_motion_keys @ [''pre_record_seconds'', ''post_record_seconds'']"
    unfolding g i m by (simp add: with_key_def keys_def default_motion_keys_def)
  show ?thesis
    using C7_dialog_motion_shape [OF stored r] k by simp
qed

theorem C7_default_shape_counterexample:
  "''learning_rate'' \<in> set (keys (get (get (initial_settings camera_without_motion) ''motion'') ''mog2''))
   \<and> ''pre_record_seconds'' \<notin> set (keys (get (initial_settings camera_without_motion) ''motion''))
   \<and> \<not> claimed_shape (get (initial_settings camera_without_motion) ''motion'')"
proof -
  let ?m = "get (initial_settings camera_without_motion) ''motion''"
  have extra: "''learning_rate'' \<in> set (keys (get ?m ''mog2''))"
    by (simp add: initial_settings_def camera_without_motion_def js_or_def default_motion_def default_mog2_def keys_def)
  have missing: "''pre_record_seconds'' \<notin> set (keys ?m)"
    by (simp add: initial_settings_def camera_without_motion_def js_or_def default_motion_def keys_def)
  have "\<not> claimed_shape ?m"
  proof
    assume "claimed_shape ?m"
    then have "set (keys ?m) = set claimed_motion_keys"
      by (simp add: claimed_shape_def consists_of_def)
    then have "''pre_record_seconds'' \<in> set (keys ?m)"
      by (simp add: claimed_motion_keys_def)
    with missing show False by contradiction
  qed
  with extra missing show ?thesis by simp
qed

text \<open>
  C10. For a camera whose stored motion configuration is absent or within the
  bounds, every motion configuration a session with the dialog produces is within the
  bounds: the minimum area is in [100, 5000] and a multiple of 100, the minimum duration
  is in [0, 10], and the pre-roll and post-roll seconds, where present, are in [0, 30]
  and in [0, 60] and a multiple of 5.
\<close>

theorem C10_dialog_keeps_bounds:
  assumes start: "\<not> truthy (get camera ''motion'') \<or> dialog_bounds (get camera ''motion'')"
    and session: "run es (initial_settings camera) = Some s"
  shows "dialog_bounds (get s ''motion'')"
proof -
  have "dialog_bounds (js_or (get camera ''motion'') default_motion)"
  proof (cases "truthy (get camera ''motion'')")
    case True
    with start show ?thesis by (simp add: js_or_def)
  next
    case False
    then show ?thesis by (simp add: js_or_def default_motion_bounds)
  qed
  then have "dialog_bounds (get (initial_settings camera) ''motion'')"
    by (simp only: initial_motion)
  with session is_obj_initial show ?thesis
    by (rule run_dialog_bounds)
qed

theorem C10_dialog_keeps_bounds_witness:
  "run [Switch_motion_enabled True, Slider_post_record 15] (initial_settings camera_without_motion)
     = Some (handle (Slider_post_record 15)
               (handle (Switch_motion_enabled True) (initial_settings camera_without_motion)))
   \<and> dialog_bounds
        (get (handle (Slider_post_record 15)
                (handle (Switch_motion_enabled True) (initial_settings camera_without_motion))) ''motion'')"
proof -
  have r: "run [Switch_motion_enabled True, Slider_post_record 15] (initial_settings camera_without_motion)
     = Some (handle (Slider_post_record 15)
               (handle (Switch_motion_enabled True) (initial_settings camera_without_motion)))"
    by (simp add: motion_shown_def slider_emits_def set_in_def with_key_def
          initial_settings_def camera_without_motion_def js_or_def default_motion_def)
  have "\<not> truthy (get camera_without_motion ''motion'')"
    by (simp add: camera_without_motion_def)
  then show ?thesis
    using r C10_dialog_keeps_bounds [OF _ r] by simp
qed

theorem C10_unset_pre_record_counterexample:
  "run [Switch_motion_enabled True, Slider_min_area 300] (initial_settings camera_without_motion)
     = Some (handle (Slider_min_area 300)
               (handle (Switch_motion_enabled True) (initial_settings camera_without_motion)))
   \<and> get (get (handle (Slider_min_area 300)
                 (handle (Switch_motion_enabled True) (initial_settings camera_without_motion))) ''motion'')
        ''pre_record_seconds'' = JUndefined
   \<and> \<not> claimed_bounds
          (get (handle (Slider_min_area 300)
                  (handle (Switch_motion_enabled True) (initial_settings camera_without_motion))) ''motion'')"
  by (simp add: motion_shown_def slider_emits_def set_in_def with_key_def
        initial_settings_def camera_without_motion_def js_or_def default_motion_def claimed_bounds_def in_range_def)

subsection \<open>Global settings\<close>

lemma profile_selected_is_obj: "profile_selected s \<Longrightarrow> is_obj s"
  by (rule get_defined_is_obj [of s "''performance_profile''"])
     (auto simp add: profile_selected_def)

lemma profile_selected_iff:
  "profile_selected s
     = (\<exists>p. get s ''performance_profile'' = JStr p \<and> p \<in> set (keys (get s ''profiles'')))"
  by (cases "get s ''performance_profile''") (simp_all add: profile_selected_def)

lemma settings_handle_selected:
  assumes "profile_selected s" and "settings_offered s e"
  shows "profile_selected (settings_handle e s)"
proof -
  have obj: "is_obj s" using assms(1) by (rule profile_selected_is_obj)
  show ?thesis
  proof (cases e)
    case (Select_profile v)
    with assms(2) have "v \<in> set (keys (get s ''profiles''))" by simp
    with Select_profile obj show ?thesis
      by (simp add: profile_selected_iff get_with_key_obj)
  qed (use assms(1) obj in \<open>simp_all add: profile_selected_iff get_with_key_obj\<close>)
qed

lemma settings_run_selected:
  "settings_run es s = Some s' \<Longrightarrow> profile_selected s \<Longrightarrow> profile_selected s'"
proof (induction es arbitrary: s)
  case Nil
  then show ?case by simp
next
  case (Cons e es)
  from Cons.prems(1) have off: "settings_offered s e"
    and rest: "settings_run es (settings_handle e s) = Some s'"
    by (simp_all split: if_splits)
  from Cons.IH [OF rest settings_handle_selected [OF Cons.prems(2) off]]
  show ?case .
qed

text \<open>
  C6. One performance profile is active at every moment, and it is global. From fetched
  settings with one profile selected, after any session on the Settings page one profile
  is selected; the object saved holds the key \<open>performance_profile\<close> once, with the
  selected value; and neither the object the camera dialog saves nor the one the add
  dialog posts has such a key.
\<close>

theorem C6_single_global_profile:
  assumes fetched: "profile_selected d"
    and session: "settings_run es d = Some s"
    and dialog: "run es' (initial_settings camera) = Some cs"
  shows "profile_selected s
         \<and> get (Settings_handleSave s) ''performance_profile'' = get s ''performance_profile''
         \<and> count_list (keys (Settings_handleSave s)) ''performance_profile'' = 1
         \<and> ''performance_profile'' \<notin> set (keys (CameraSettingsDialog_handleSave cs))
         \<and> ''performance_profile'' \<notin> set (keys (camera_of c))"
proof -
  have one: "profile_selected s"
    using session fetched by (rule settings_run_selected)
  have body: "get (Settings_handleSave s) ''performance_profile'' = get s ''performance_profile''"
    by (simp add: Settings_handleSave_def)
  have count: "count_list (keys (Settings_handleSave s)) ''performance_profile'' = 1"
    by (simp add: Settings_handleSave_def keys_def)
  have "keys cs = top_keys"
    using dialog initial_top_keys by (rule run_top_keys)
  then have cam: "''performance_profile'' \<notin> set (keys (CameraSettingsDialog_handleSave cs))"
    by (simp add: CameraSettingsDialog_handleSave_def top_keys_def)
  have new: "''performance_profile'' \<notin> set (keys (camera_of c))"
    by (simp add: camera_of_def keys_def)
  from one body count cam new show ?thesis by simp
qed

theorem C6_single_global_profile_witness:
  "profile_selected
     (settings_handle (Select_profile ''low'')
        (JObj [(''performance_profile'', JStr ''high''),
               (''profiles'', JObj [(''low'', JObj []), (''high'', JObj [])])]))
   \<and> get (settings_handle (Select_profile ''low'')
        (JObj [(''performance_profile'', JStr ''high''),
               (''profiles'', JObj [(''low'', JObj []), (''high'', JObj [])])]))
        ''performance_profile'' = JStr ''low''"
proof -
  let ?d = "JObj [(''performance_profile'', JStr ''high''),
                  (''profiles'', JObj [(''low'', JObj []), (''high'', JObj [])])]"
  have f: "profile_selected ?d"
    by (simp add: profile_selected_def keys_def)
  have r: "settings_run [Select_profile ''low''] ?d = Some (settings_handle (Select_profile ''low'') ?d)"
    by (simp add: keys_def)
  have c: "run [] (initial_settings (JObj [])) = Some (initial_settings (JObj []))"
    by simp
  have v: "get (settings_handle (Select_profile ''low'') ?d) ''performance_profile'' = JStr ''low''"
    by (simp add: get_with_key_same)
  from C6_single_global_profile [OF f r c] v show ?thesis by simp
qed

subsection \<open>Recordings\<close>

text \<open>
  C8. The type filter is meant to send only \<open>continuous\<close> or \<open>motion\<close>: choosing
  the item \<open>all\<close> clears the filter and no type is sent. The initial filters hold
  \<open>all\<close> itself, so the requests made when the page is mounted send
  \<open>record_type=all\<close>, which is neither of the two values.
\<close>

theorem C8_initial_filter_sends_all:
  "fetchRecordings_params initial_filters = [(''camera_id'', ''all''), (''record_type'', ''all'')]
   \<and> map_of (fetchRecordings_params initial_filters) ''record_type'' = Some ''all''
   \<and> ''all'' \<notin> {''continuous'', ''motion''}
   \<and> map (\<lambda>v. map_of (fetchRecordings_params (onFilterChange (Select_type v) initial_filters))
                 ''record_type'') type_items
       = [None, Some ''continuous'', Some ''motion'']"
proof -
  have mounted: "fetchRecordings_params initial_filters
                   = [(''camera_id'', ''all''), (''record_type'', ''all'')]"
    by (simp add: fetchRecordings_params_def initial_filters_def)
  have cleared: "fetchRecordings_params (onFilterChange (Select_type ''all'') initial_filters)
                   = [(''camera_id'', ''all'')]"
    by (simp add: fetchRecordings_params_def initial_filters_def)
  have continuous:
    "fetchRecordings_params (onFilterChange (Select_type ''continuous'') initial_filters)
       = [(''camera_id'', ''all''), (''record_type'', ''continuous'')]"
    by (simp add: fetchRecordings_params_def initial_filters_def)
  have motion:
    "fetchRecordings_params (onFilterChange (Select_type ''motion'') initial_filters)
       = [(''camera_id'', ''all''), (''record_type'', ''motion'')]"
    by (simp add: fetchRecordings_params_def initial_filters_def)
  show ?thesis
    unfolding type_items_def list.map mounted cleared continuous motion by simp
qed

end
